theory Spec2Isabelle
  imports Main
begin

section \<open>UI coverage collection for an appliance (fixtures/ui_coverage.py)\<close>

text \<open>
  The module drives remote appliances over SSH and reports through loggers and the
  test runner. The embedding makes those effects explicit: every operation on a
  collaborator is a call whose outcome (a result, or a raised exception) is given by
  the environment, and every call, log line and message is appended to a trace. A
  method of the source is a program: a function from the world to a result (an
  exception or a value) together with the world it leaves behind, so the effects done
  before a raise stay. Log lines and messages are effects that do not fail.
\<close>

subsection \<open>Exceptions, remote operations, trace\<close>

text \<open>
  Values of \<open>exc\<close> are instances of Python's \<open>Exception\<close> class (the failures of the
  SSH client, of the appliance helpers and of dictionary lookups are such instances);
  the handler \<open>except Exception\<close> of the source therefore matches all of them.
\<close>

datatype exc =
    ApplianceVersionException string string
  | KeyError string
  | OtherException string

text \<open>The result of \<open>ssh_client.run_command\<close>: its \<open>success\<close> flag and its text.\<close>

record SSHResult =
  success :: bool
  stdout :: string

text \<open>
  Modelled from the spec: an appliance (cfme.utils.appliance is not in the sources) is a
  host, whose identity is its network address; \<open>!=\<close> on appliances compares it.
\<close>

record IPAppliance =
  hostname :: string

text \<open>
  The operations on collaborators that are not part of the module: the SSH client of
  an appliance (\<open>run_command\<close> with its optional timeout, \<open>put_file\<close>, \<open>get_file\<close>),
  the appliance's \<open>restart_evm_service\<close> and \<open>wait_for_web_ui\<close>, and writing a local
  file. The first argument is the host name of the appliance addressed.
\<close>

datatype op =
    RunCommand string string "nat option"
  | PutFile string string string
  | GetFile string string string
  | RestartEvmService string
  | WaitForWebUi string
  | WriteLocalFile string string

datatype outcome = Returned SSHResult | Raised exc

text \<open>
  What a process did: calls with their outcomes, lines of the manager's logger (named
  by the first argument), and the messages of \<open>print_message\<close> to the slave manager
  (with the slave id), to the parallel session, or to the terminal reporter (with the
  separator character).
\<close>

datatype event =
    Call op outcome
  | LogInfo string string
  | LogError string string
  | LogException string exc
  | SlaveMessage string string
  | SessionMessage string
  | TerminalSep string string
  | ConfSave string

text \<open>
  The world of a process: the trace, and the entries of the shared configuration
  \<open>conf['.ui-coverage']\<close>.
\<close>

record world =
  trace :: "event list"
  ui_coverage_conf :: "string \<rightharpoonup> string"

record repo_data =
  repo_name :: string
  repo_baseurl :: string
  repo_enabled :: string
  repo_gpgcheck :: string

text \<open>
  What the module imports and does not define: the behaviour of the collaborators
  (\<open>respond\<close>, which may depend on everything done so far), the appliance's version
  and the comparison of a version with a version string (\<open>cfme.utils.version\<close>),
  which entry \<open>version.pick\<close> selects, the SSH password, \<open>quote\<close>, the local paths
  of \<open>cfme.utils.path\<close> and the yum repository entry of \<open>cfme_data\<close>.
\<close>

record env =
  respond :: "event list \<Rightarrow> op \<Rightarrow> outcome"
  app_version :: "IPAppliance \<Rightarrow> string"
  version_lt :: "string \<Rightarrow> string \<Rightarrow> bool"
  version_pick_latest :: bool
  app_password :: "IPAppliance \<Rightarrow> string"
  quote :: "string \<Rightarrow> string"
  scripts_data_path :: string
  log_path :: string
  local_yum_repo :: "repo_data option"

text \<open>
  The attributes of \<open>fixtures.pytest_store.store\<close> that the module reads. The role is
  compared with \<open>'master'\<close> and \<open>'slave'\<close> only; any other value is a standalone
  process.
\<close>

record store =
  parallelizer_role :: string
  slave_manager :: "string option"
  parallel_session :: bool
  current_appliance :: IPAppliance

subsection \<open>Programs\<close>

type_synonym 'a prog = "world \<Rightarrow> (exc + 'a) \<times> world"

definition return :: "'a \<Rightarrow> 'a prog" where
  "return v w = (Inr v, w)"

definition raise :: "exc \<Rightarrow> 'a prog" where
  "raise x w = (Inl x, w)"

definition bind :: "'a prog \<Rightarrow> ('a \<Rightarrow> 'b prog) \<Rightarrow> 'b prog" where
  "bind p f w = (case p w of (Inl x, w') \<Rightarrow> (Inl x, w') | (Inr v, w') \<Rightarrow> f v w')"

text \<open>\<open>try: p except Exception as exc: h exc\<close>\<close>

definition catch :: "'a prog \<Rightarrow> (exc \<Rightarrow> 'a prog) \<Rightarrow> 'a prog" where
  "catch p h w = (case p w of (Inl x, w') \<Rightarrow> h x w' | (Inr v, w') \<Rightarrow> (Inr v, w'))"

definition emit :: "event \<Rightarrow> unit prog" where
  "emit ev w = (Inr (), w\<lparr>trace := trace w @ [ev]\<rparr>)"

definition call :: "env \<Rightarrow> op \<Rightarrow> SSHResult prog" where
  "call E c w =
     (let out = respond E (trace w) c;
          w' = w\<lparr>trace := trace w @ [Call c out]\<rparr>
      in case out of Returned r \<Rightarrow> (Inr r, w') | Raised x \<Rightarrow> (Inl x, w'))"

text \<open>The events a program added to the trace of \<open>w\<close> when it left \<open>w'\<close>.\<close>

definition new_events :: "world \<Rightarrow> world \<Rightarrow> event list" where
  "new_events w w' = drop (length (trace w)) (trace w')"

subsection \<open>Paths and commands\<close>

definition join :: "string \<Rightarrow> string \<Rightarrow> string" where
  "join p n = p @ ''/'' @ n"

definition rails_root :: string where
  "rails_root = ''/var/www/miq/vmdb''"

definition appliance_coverage_root :: string where
  "appliance_coverage_root = join rails_root ''coverage''"

definition coverage_data :: "env \<Rightarrow> string" where
  "coverage_data E = join (scripts_data_path E) ''coverage''"

definition gemfile :: "env \<Rightarrow> string" where
  "gemfile E = join (coverage_data E) ''coverage_gem.rb''"

definition bundler_d :: string where
  "bundler_d = join rails_root ''bundler.d''"

definition coverage_hook_file_name :: string where
  "coverage_hook_file_name = ''coverage_hook.rb''"

definition coverage_hook :: "env \<Rightarrow> string" where
  "coverage_hook E = join (coverage_data E) coverage_hook_file_name"

definition coverage_output_dir :: "env \<Rightarrow> string" where
  "coverage_output_dir E = join (log_path E) ''coverage''"

definition coverage_results_archive :: "env \<Rightarrow> string" where
  "coverage_results_archive E = join (coverage_output_dir E) ''coverage-results.tgz''"

definition marker_check :: string where
  "marker_check = ''cd '' @ rails_root @ ''; [ -e lib/code_coverage.rb ]''"

definition coverage_hook_patch_name :: string where
  "coverage_hook_patch_name = ''manageiq-17302.patch''"

definition remote_coverage_hook_patch :: string where
  "remote_coverage_hook_patch = join rails_root coverage_hook_patch_name"

definition patch_command :: string where
  "patch_command = ''cd '' @ rails_root @ ''; patch -p1 < '' @ remote_coverage_hook_patch"

definition yum_repo_data :: "repo_data \<Rightarrow> string" where
  "yum_repo_data r =
     [CHR 0x0A] @ ''['' @ repo_name r @ '']'' @ [CHR 0x0A]
     @ ''name='' @ repo_name r @ [CHR 0x0A]
     @ ''baseurl='' @ repo_baseurl r @ [CHR 0x0A]
     @ ''enabled='' @ repo_enabled r @ [CHR 0x0A]
     @ ''gpgcheck='' @ repo_gpgcheck r @ [CHR 0x0A]"

definition stop_command :: string where
  "stop_command = ''systemctl stop evmserverd''"

definition tar_command :: string where
  "tar_command = ''cd /var/www/miq/vmdb/;tar czf /tmp/ui-coverage-raw.tgz coverage/''"

subsection \<open>CoverageManager\<close>

record CoverageManager =
  ipapp :: IPAppliance
  log :: string

text \<open>
  \<open>CoverageManager.__init__\<close>: the sublogger is named after the slave id when there
  is a slave manager; an appliance whose version is below 5.8 is refused.
\<close>

definition CoverageManager_init :: "env \<Rightarrow> store \<Rightarrow> IPAppliance \<Rightarrow> exc + CoverageManager" where
  "CoverageManager_init E S ipappliance =
     (let sublogger_name =
            (case slave_manager S of Some slaveid \<Rightarrow> slaveid @ '' coverage''
                                   | None \<Rightarrow> ''coverage'')
      in if version_lt E (app_version E ipappliance) ''5.8''
         then Inl (ApplianceVersionException
                     ''Coverage statistics collection is only supported in appliances >= 5.8''
                     (app_version E ipappliance))
         else Inr \<lparr>ipapp = ipappliance, log = sublogger_name\<rparr>)"

text \<open>
  Modelled from the spec: \<open>IPAppliance.from_url\<close> (cfme.utils.appliance is not in the
  sources) gives the appliance at the persisted address, a host being identified by
  its network address.
\<close>

definition from_url :: "string \<Rightarrow> IPAppliance" where
  "from_url url = \<lparr>hostname = url\<rparr>"

text \<open>
  The property \<open>collection_appliance\<close>: a slave reads
  \<open>conf['.ui-coverage']['collection_appliance']\<close> (a missing key raises), every other
  process takes its own appliance.
\<close>

definition collection_appliance :: "store \<Rightarrow> CoverageManager \<Rightarrow> IPAppliance prog" where
  "collection_appliance S self w =
     (if parallelizer_role S = ''slave''
      then (case ui_coverage_conf w ''collection_appliance'' of
              None \<Rightarrow> raise (KeyError ''collection_appliance'') w
            | Some url \<Rightarrow> return (from_url url) w)
      else return (current_appliance S) w)"

definition print_message :: "store \<Rightarrow> CoverageManager \<Rightarrow> string \<Rightarrow> unit prog" where
  "print_message S self message =
     bind (emit (LogInfo (log self) message)) (\<lambda>_.
       let message' = ''coverage: '' @ message
       in case slave_manager S of
            Some slaveid \<Rightarrow> emit (SlaveMessage slaveid message')
          | None \<Rightarrow> if parallel_session S then emit (SessionMessage message')
                    else emit (TerminalSep ''-'' message'))"

definition install_simplecov :: "env \<Rightarrow> CoverageManager \<Rightarrow> unit prog" where
  "install_simplecov E self =
     bind (emit (LogInfo (log self) ''Installing coverage gem on appliance'')) (\<lambda>_.
     bind (call E (PutFile (hostname (ipapp self)) (gemfile E) bundler_d)) (\<lambda>_.
     if version_pick_latest E
     then bind (call E (RunCommand (hostname (ipapp self)) ''yum -y install git'' None)) (\<lambda>_.
          bind (call E (RunCommand (hostname (ipapp self))
                          (''cd '' @ rails_root @ ''; bundle'') None)) (\<lambda>_.
          return ()))
     else bind (call E (RunCommand (hostname (ipapp self))
                  ''gem install --install-dir /opt/rh/cfme-gemset/ -v0.9.2 simplecov'' None)) (\<lambda>_.
          return ())))"

text \<open>
  \<open>_install_coverage_hook\<close>: clean the remote coverage directory, put the hook, and
  return \<open>True\<close> at once when \<open>lib/code_coverage.rb\<close> is there; otherwise put the
  patch, install the \<open>patch\<close> command if \<open>rpm -q patch\<close> fails, and apply the patch.
\<close>

definition install_patch_command :: "env \<Rightarrow> CoverageManager \<Rightarrow> unit prog" where
  "install_patch_command E self =
     (case local_yum_repo E of
        None \<Rightarrow> raise (KeyError ''local_yum_repo'')
      | Some r \<Rightarrow>
          bind (call E (WriteLocalFile (join (log_path E) ''yum.local.repo'')
                          (yum_repo_data r))) (\<lambda>_.
          bind (call E (PutFile (hostname (ipapp self)) (join (log_path E) ''yum.local.repo'')
                          ''/etc/yum.repos.d/local.repo'')) (\<lambda>_.
          bind (call E (RunCommand (hostname (ipapp self)) ''yum install -y patch'' None)) (\<lambda>_.
          bind (call E (RunCommand (hostname (ipapp self))
                          ''rm /etc/yum.repos.d/local.repo'' None)) (\<lambda>_.
          return ())))))"

definition install_coverage_hook :: "env \<Rightarrow> CoverageManager \<Rightarrow> bool prog" where
  "install_coverage_hook E self =
     bind (call E (RunCommand (hostname (ipapp self))
                     (''rm -rf '' @ appliance_coverage_root) None)) (\<lambda>_.
     bind (call E (PutFile (hostname (ipapp self)) (coverage_hook E)
                     (join (join rails_root ''config'') coverage_hook_file_name))) (\<lambda>_.
     bind (call E (RunCommand (hostname (ipapp self)) marker_check None)) (\<lambda>result.
     if success result then return True
     else
       bind (emit (LogInfo (log self) ''Patching system with manageiq patch #17302'')) (\<lambda>_.
       bind (call E (PutFile (hostname (ipapp self))
                       (join (coverage_data E) coverage_hook_patch_name)
                       remote_coverage_hook_patch)) (\<lambda>_.
       bind (call E (RunCommand (hostname (ipapp self)) ''rpm -q patch'' None)) (\<lambda>result.
       bind (if \<not> success result then install_patch_command E self else return ()) (\<lambda>_.
       bind (call E (RunCommand (hostname (ipapp self)) patch_command None)) (\<lambda>result.
       return (success result)))))))))"

definition scp_command :: "env \<Rightarrow> CoverageManager \<Rightarrow> string \<Rightarrow> string" where
  "scp_command E self addr =
     ''sshpass -p '' @ quote E (app_password E (ipapp self))
     @ '' scp -o StrictHostKeyChecking=no -r /var/www/miq/vmdb/coverage/* ''
     @ addr @ '':/var/www/miq/vmdb/coverage/''"

text \<open>
  Modelled from the spec: the truth value of a command result in \<open>if not result\<close>
  (the result class of cfme.utils.ssh is not in the sources) is its \<open>success\<close>.
\<close>

definition result_bool :: "SSHResult \<Rightarrow> bool" where
  "result_bool r = success r"

text \<open>Modelled from the spec: \<open>str(result)\<close> is the captured output of the command.\<close>

definition result_str :: "SSHResult \<Rightarrow> string" where
  "result_str r = stdout r"

definition collect_reports :: "env \<Rightarrow> store \<Rightarrow> CoverageManager \<Rightarrow> unit prog" where
  "collect_reports E S self =
     bind (call E (RunCommand (hostname (ipapp self)) stop_command None)) (\<lambda>_.
     bind (collection_appliance S self) (\<lambda>ca.
     if current_appliance S \<noteq> ca
     then bind (collection_appliance S self) (\<lambda>ca1.
          bind (print_message S self (''sending reports to '' @ hostname ca1)) (\<lambda>_.
          bind (collection_appliance S self) (\<lambda>ca2.
          bind (call E (RunCommand (hostname (ipapp self))
                          (scp_command E self (hostname ca2)) (Some 1800))) (\<lambda>result.
          if \<not> result_bool result
          then print_message S self
                 (''There was an error sending reports: '' @ result_str result)
          else return ()))))
     else return ()))"

definition retrieve_coverage_reports :: "env \<Rightarrow> store \<Rightarrow> CoverageManager \<Rightarrow> unit prog" where
  "retrieve_coverage_reports E S self =
     bind (collection_appliance S self) (\<lambda>ca.
     bind (call E (RunCommand (hostname ca) tar_command None)) (\<lambda>_.
     bind (call E (GetFile (hostname ca) ''/tmp/ui-coverage-raw.tgz''
                     (coverage_results_archive E))) (\<lambda>_.
     return ())))"

definition install :: "env \<Rightarrow> store \<Rightarrow> CoverageManager \<Rightarrow> unit prog" where
  "install E S self =
     bind (print_message S self ''installing'') (\<lambda>_.
     bind (install_simplecov E self) (\<lambda>_.
     bind (install_coverage_hook E self) (\<lambda>_.
     bind (call E (RestartEvmService (hostname (ipapp self)))) (\<lambda>_.
     bind (call E (WaitForWebUi (hostname (ipapp self)))) (\<lambda>_.
     return ())))))"

definition collect :: "env \<Rightarrow> store \<Rightarrow> CoverageManager \<Rightarrow> unit prog" where
  "collect E S self =
     bind (print_message S self ''collecting reports'') (\<lambda>_.
     bind (collect_reports E S self) (\<lambda>_.
     bind (call E (RestartEvmService (hostname (ipapp self)))) (\<lambda>_.
     return ())))"

text \<open>
  \<open>merge\<close>: only the retrieval of the raw archive is inside the \<open>try\<close>; the calls of
  \<open>_merge_coverage_reports\<close> and \<open>_retrieve_merged_reports\<close> are commented out in the
  source, so these methods and \<open>_upload_coverage_merger\<close> are called from nowhere.
\<close>

definition merge :: "env \<Rightarrow> store \<Rightarrow> CoverageManager \<Rightarrow> unit prog" where
  "merge E S self =
     bind (print_message S self ''merging reports'') (\<lambda>_.
     catch (retrieve_coverage_reports E S self) (\<lambda>exc.
       bind (emit (LogError (log self) ''Error merging coverage reports'')) (\<lambda>_.
       bind (emit (LogException (log self) exc)) (\<lambda>_.
       print_message S self ''merging reports failed, error has been logged''))))"

subsection \<open>UiCoveragePlugin\<close>

text \<open>
  Modelled from the spec: \<open>manager()\<close> returns \<open>store.current_appliance.coverage\<close>, an
  attribute defined in cfme.utils.appliance (not in the sources): the coordinator of
  the current appliance, constructed by \<open>CoverageManager\<close> on first use.
\<close>

definition manager :: "env \<Rightarrow> store \<Rightarrow> exc + CoverageManager" where
  "manager E S = CoverageManager_init E S (current_appliance S)"

text \<open>\<open>manager()\<close> inside a hook: a program that raises what the constructor raises.\<close>

definition the_manager :: "env \<Rightarrow> store \<Rightarrow> CoverageManager prog" where
  "the_manager E S w = (manager E S, w)"

text \<open>
  \<open>pytest_sessionstart\<close>: the master names its collection appliance in the runtime
  configuration and saves it.
\<close>

definition pytest_sessionstart :: "env \<Rightarrow> store \<Rightarrow> unit prog" where
  "pytest_sessionstart E S =
     (if parallelizer_role S = ''master''
      then bind (the_manager E S) (\<lambda>m.
           bind (collection_appliance S m) (\<lambda>ca.
           bind (\<lambda>w. (Inr (), w\<lparr>ui_coverage_conf :=
                        (ui_coverage_conf w)(''collection_appliance'' \<mapsto> hostname ca)\<rparr>)) (\<lambda>_.
           emit (ConfSave ''.ui-coverage''))))
      else return ())"

text \<open>\<open>pytest_collection_finish\<close>, the part after the \<open>yield\<close> of the hook wrapper.\<close>

definition pytest_collection_finish :: "env \<Rightarrow> store \<Rightarrow> unit prog" where
  "pytest_collection_finish E S =
     (if parallelizer_role S \<noteq> ''master''
      then bind (the_manager E S) (\<lambda>m. install E S m)
      else return ())"

definition pytest_sessionfinish :: "env \<Rightarrow> store \<Rightarrow> unit prog" where
  "pytest_sessionfinish E S =
     bind (if parallelizer_role S \<noteq> ''master''
           then bind (the_manager E S) (\<lambda>m. collect E S m)
           else return ()) (\<lambda>_.
     if parallelizer_role S = ''slave''
     then return ()
     else bind (the_manager E S) (\<lambda>m. merge E S m))"

section \<open>The report merger\<close>

text \<open>
  Modelled from the spec: the report merger. The module only names the merger script
  (\<open>coverage_merger.rb\<close>, not in the sources) and its calls in \<open>merge()\<close> are commented
  out. A raw result set maps a file identifier to its per-line hit counts, \<open>None\<close>
  for a line that is not executable; in the merged result set a file has its merged
  counts or is flagged \<open>MismatchedFileShape\<close>.
\<close>

type_synonym RawResultSet = "string \<rightharpoonup> nat option list"

datatype merged_file = Merged "nat option list" | MismatchedFileShape

type_synonym MergedResultSet = "string \<rightharpoonup> merged_file"

text \<open>
  Modelled from the spec: two values at a line merge to null when both are null, and
  to the sum of the counts that are there otherwise.
\<close>

fun merge_line :: "nat option \<Rightarrow> nat option \<Rightarrow> nat option" where
  "merge_line None None = None"
| "merge_line (Some a) None = Some a"
| "merge_line None (Some b) = Some b"
| "merge_line (Some a) (Some b) = Some (a + b)"

text \<open>
  Modelled from the spec: a file whose line count differs from the one merged so far
  is flagged and left out, and stays so; otherwise its lines are merged one by one.
\<close>

fun merge_file :: "merged_file \<Rightarrow> nat option list \<Rightarrow> merged_file" where
  "merge_file MismatchedFileShape ls = MismatchedFileShape"
| "merge_file (Merged ms) ls =
     (if length ms = length ls then Merged (map2 merge_line ms ls) else MismatchedFileShape)"

text \<open>
  Modelled from the spec: merging one raw result set into the aggregate; a file seen
  for the first time passes through unchanged.
\<close>

definition merge_into :: "MergedResultSet \<Rightarrow> RawResultSet \<Rightarrow> MergedResultSet" where
  "merge_into acc raw =
     (\<lambda>f. case raw f of
            None \<Rightarrow> acc f
          | Some ls \<Rightarrow> (case acc f of None \<Rightarrow> Some (Merged ls)
                                    | Some m \<Rightarrow> Some (merge_file m ls)))"

text \<open>Modelled from the spec: the N sets are merged one after the other.\<close>

definition merge_result_sets :: "RawResultSet list \<Rightarrow> MergedResultSet" where
  "merge_result_sets sets = foldl merge_into Map.empty sets"

text \<open>
  The merge rule in the words of the spec: the per-line sequences of a file in the
  sets that have it, and the merged value of the values contributed at one line:
  null if all are null, otherwise the sum of the non-null ones.
\<close>

definition contributing :: "string \<Rightarrow> RawResultSet list \<Rightarrow> nat option list list" where
  "contributing f sets = List.map_filter (\<lambda>raw. raw f) sets"

definition merged_value :: "nat option list \<Rightarrow> nat option" where
  "merged_value vs =
     (if list_all (\<lambda>v. v = None) vs then None
      else Some (sum_list (map (\<lambda>v. case v of None \<Rightarrow> 0 | Some n \<Rightarrow> n) vs)))"

text \<open>What merging one more set does to the entry of a single file.\<close>

fun merge_step :: "merged_file option \<Rightarrow> nat option list \<Rightarrow> merged_file option" where
  "merge_step None ls = Some (Merged ls)"
| "merge_step (Some m) ls = Some (merge_file m ls)"

section \<open>Notions used in the statements\<close>

subsection \<open>Events of a program\<close>

text \<open>The message that \<open>print_message\<close> sends after its log line.\<close>

definition message_event :: "store \<Rightarrow> string \<Rightarrow> event" where
  "message_event S message =
     (case slave_manager S of
        Some slaveid \<Rightarrow> SlaveMessage slaveid message
      | None \<Rightarrow> if parallel_session S then SessionMessage message else TerminalSep ''-'' message)"

text \<open>
  \<open>emits P p\<close>: whatever the world, \<open>p\<close> changes nothing but the trace, and every
  event it appends satisfies \<open>P\<close>.
\<close>

definition emits :: "(event \<Rightarrow> bool) \<Rightarrow> 'a prog \<Rightarrow> bool" where
  "emits P p = (\<forall>w. \<exists>evs. snd (p w) = w\<lparr>trace := trace w @ evs\<rparr> \<and> list_all P evs)"

text \<open>\<open>emits_when I P p\<close>: as \<open>emits\<close>, from the worlds whose trace satisfies \<open>I\<close>.\<close>

definition emits_when :: "(event list \<Rightarrow> bool) \<Rightarrow> (event \<Rightarrow> bool) \<Rightarrow> 'a prog \<Rightarrow> bool" where
  "emits_when I P p =
     (\<forall>w. I (trace w) \<longrightarrow> (\<exists>evs. snd (p w) = w\<lparr>trace := trace w @ evs\<rparr> \<and> list_all P evs))"

text \<open>
  \<open>failfast p\<close>: \<open>p\<close> changes nothing but the trace, and a call that raised is the last
  thing \<open>p\<close> did, its exception being the result of \<open>p\<close>.
\<close>

definition failfast :: "'a prog \<Rightarrow> bool" where
  "failfast p = (\<forall>w. \<exists>evs. snd (p w) = w\<lparr>trace := trace w @ evs\<rparr> \<and>
       (\<forall>c x. Call c (Raised x) \<in> set evs \<longrightarrow> fst (p w) = Inl x \<and> last evs = Call c (Raised x)))"

subsection \<open>The marker file of the integration patch\<close>

text \<open>
  The steps that apply the integration patch on host \<open>h\<close>: putting the patch file
  and running \<open>patch\<close>.
\<close>

fun is_patch_step :: "string \<Rightarrow> event \<Rightarrow> bool" where
  "is_patch_step h (Call (RunCommand h' c t) out) = (h' = h \<and> c = patch_command)"
| "is_patch_step h (Call (PutFile h' l r) out) = (h' = h \<and> r = remote_coverage_hook_patch)"
| "is_patch_step h ev = False"

text \<open>
  From the comment in \<open>_install_coverage_hook\<close> (the patch creates
  \<open>lib/code_coverage.rb\<close>, and if that file is there the patch is taken as installed):
  an event shows the marker file on host \<open>h\<close> when it is a successful check for the
  file or a successful run of \<open>patch\<close>; a history is \<open>marked\<close> when it has such an
  event. In an environment where the marker persists, a check for the file that
  returns after such an event finds it.
\<close>

fun marks :: "string \<Rightarrow> event \<Rightarrow> bool" where
  "marks h (Call (RunCommand h' c t) (Returned r)) =
     (h' = h \<and> t = None \<and> success r \<and> (c = marker_check \<or> c = patch_command))"
| "marks h ev = False"

definition marked :: "string \<Rightarrow> event list \<Rightarrow> bool" where
  "marked h hist = list_ex (marks h) hist"

definition marker_persists :: "env \<Rightarrow> string \<Rightarrow> bool" where
  "marker_persists E h =
     (\<forall>hist r. marked h hist \<and> respond E hist (RunCommand h marker_check None) = Returned r
        \<longrightarrow> success r)"

section \<open>A sample fleet\<close>

text \<open>
  Concrete environments on which the theorems below are instantiated: appliance
  10.0.0.7 runs 5.7.0.1, every other appliance 5.9.0.1; a slave has the id
  \<open>slave0\<close>. The behaviours: every call succeeds; fetching a file raises; the web UI
  never answers; every command with a timeout (the transfer) fails; the check for the
  marker file succeeds once the history is marked.
\<close>

definition ok :: SSHResult where
  "ok = \<lparr>success = True, stdout = ''''\<rparr>"

definition failed :: SSHResult where
  "failed = \<lparr>success = False, stdout = ''lost connection''\<rparr>"

definition sample_env :: "(event list \<Rightarrow> op \<Rightarrow> outcome) \<Rightarrow> env" where
  "sample_env f =
     \<lparr>respond = f,
      app_version = (\<lambda>a. if hostname a = ''10.0.0.7'' then ''5.7.0.1'' else ''5.9.0.1''),
      version_lt = (\<lambda>v s. v = ''5.7.0.1'' \<and> s = ''5.8''),
      version_pick_latest = False,
      app_password = (\<lambda>_. ''secret''),
      quote = (\<lambda>s. s),
      scripts_data_path = ''/data'',
      log_path = ''/log'',
      local_yum_repo = None\<rparr>"

definition sample_store :: "string \<Rightarrow> string \<Rightarrow> store" where
  "sample_store role host =
     \<lparr>parallelizer_role = role,
      slave_manager = (if role = ''slave'' then Some ''slave0'' else None),
      parallel_session = (role = ''master''),
      current_appliance = \<lparr>hostname = host\<rparr>\<rparr>"

definition sample_manager :: "string \<Rightarrow> string \<Rightarrow> CoverageManager" where
  "sample_manager role host =
     \<lparr>ipapp = \<lparr>hostname = host\<rparr>,
      log = (if role = ''slave'' then ''slave0 coverage'' else ''coverage'')\<rparr>"

definition fresh :: world where
  "fresh = \<lparr>trace = [], ui_coverage_conf = Map.empty\<rparr>"


definition all_ok :: "event list \<Rightarrow> op \<Rightarrow> outcome" where
  "all_ok h c = Returned ok"




definition marker_aware :: "event list \<Rightarrow> op \<Rightarrow> outcome" where
  "marker_aware hist c =
     (case c of
        RunCommand h cmd t \<Rightarrow>
          if cmd = marker_check then Returned \<lparr>success = marked h hist, stdout = ''''\<rparr>
          else Returned ok
      | _ \<Rightarrow> Returned ok)"

text \<open>The world after the coverage hook was installed once on a fresh appliance.\<close>

definition once_patched :: world where
  "once_patched =
     snd (install_coverage_hook (sample_env marker_aware)
            (sample_manager ''standalone'' ''10.0.0.1'') fresh)"

section \<open>Properties\<close>

subsection \<open>Running programs\<close>

lemma bind_return [simp]: "bind (return v) f = f v"
  by (rule ext) (simp add: bind_def return_def)

lemma bind_raise [simp]: "bind (raise x) f = raise x"
  by (rule ext) (simp add: bind_def raise_def)

lemma bind_assoc: "bind (bind p f) g = bind p (\<lambda>v. bind (f v) g)"
  by (rule ext) (simp add: bind_def split: prod.splits sum.splits)

lemma bind_Inr: "p w = (Inr v, w') \<Longrightarrow> bind p f w = f v w'"
  by (simp add: bind_def)

lemma bind_Inl: "p w = (Inl x, w') \<Longrightarrow> bind p f w = (Inl x, w')"
  by (simp add: bind_def)

lemma bind_Inr_elim:
  assumes "fst (bind p f w) = Inr v"
  obtains u where "fst (p w) = Inr u" "bind p f w = f u (snd (p w))"
  using assms by (cases "p w"; cases "fst (p w)") (auto simp: bind_def)

lemma bind_emit:
  "bind (emit ev) f w = f () (w\<lparr>trace := trace w @ [ev]\<rparr>)"
  by (simp add: bind_def emit_def)

lemma call_run:
  "call E c w = (case respond E (trace w) c of
                   Returned r \<Rightarrow> Inr r | Raised x \<Rightarrow> Inl x,
                 w\<lparr>trace := trace w @ [Call c (respond E (trace w) c)]\<rparr>)"
  by (simp add: call_def Let_def split: outcome.splits)

lemma bind_call:
  "bind (call E c) f w =
     (case respond E (trace w) c of
        Raised x \<Rightarrow> (Inl x, w\<lparr>trace := trace w @ [Call c (Raised x)]\<rparr>)
      | Returned r \<Rightarrow> f r (w\<lparr>trace := trace w @ [Call c (Returned r)]\<rparr>))"
  by (simp add: bind_def call_run split: outcome.splits)


lemma print_message_run:
  "print_message S self m w =
     (Inr (), w\<lparr>trace := trace w @ [LogInfo (log self) m, message_event S (''coverage: '' @ m)]\<rparr>)"
  by (simp add: print_message_def message_event_def bind_def emit_def Let_def split: option.splits)

lemma bind_print_message:
  "bind (print_message S self m) f w =
     f () (w\<lparr>trace := trace w @ [LogInfo (log self) m, message_event S (''coverage: '' @ m)]\<rparr>)"
  by (simp add: bind_def print_message_run)

lemma message_event_not_call [simp]:
  "message_event S m \<noteq> Call c out" "Call c out \<noteq> message_event S m"
  by (simp_all add: message_event_def split: option.splits)

lemma collection_appliance_run:
  "collection_appliance S self w = (fst (collection_appliance S self w), w)"
  by (simp add: collection_appliance_def return_def raise_def split: option.splits)

lemma collection_appliance_trace [simp]:
  "fst (collection_appliance S self (w\<lparr>trace := t\<rparr>)) = fst (collection_appliance S self w)"
  by (simp add: collection_appliance_def return_def raise_def split: option.splits)

lemma bind_collection_appliance:
  "bind (collection_appliance S self) f w =
     (case fst (collection_appliance S self w) of Inl x \<Rightarrow> (Inl x, w) | Inr ca \<Rightarrow> f ca w)"
  by (subst bind_def, subst collection_appliance_run) (simp split: sum.splits)


lemma the_manager_Inr: "manager E S = Inr m \<Longrightarrow> bind (the_manager E S) f = f m"
  by (rule ext) (simp add: bind_def the_manager_def)

lemma the_manager_Inl: "manager E S = Inl x \<Longrightarrow> bind (the_manager E S) f = raise x"
  by (rule ext) (simp add: bind_def the_manager_def raise_def)

lemma new_events_append [simp]: "new_events w (w\<lparr>trace := trace w @ evs\<rparr>) = evs"
  by (simp add: new_events_def)

lemma collect_unfold:
  "collect E S self w =
     bind (collect_reports E S self) (\<lambda>_.
     bind (call E (RestartEvmService (hostname (ipapp self)))) (\<lambda>_. return ()))
     (snd (print_message S self ''collecting reports'' w))"
  unfolding collect_def
  by (rule bind_Inr) (simp add: print_message_run)

lemma collect_run:
  "collect E S self w =
     (case collect_reports E S self
             (w\<lparr>trace := trace w @ [LogInfo (log self) ''collecting reports'',
                                    message_event S ''coverage: collecting reports'']\<rparr>) of
        (Inl x, w1) \<Rightarrow> (Inl x, w1)
      | (Inr u, w1) \<Rightarrow>
          (case respond E (trace w1) (RestartEvmService (hostname (ipapp self))) of
             Raised x \<Rightarrow> (Inl x, w1\<lparr>trace := trace w1 @
                            [Call (RestartEvmService (hostname (ipapp self))) (Raised x)]\<rparr>)
           | Returned r \<Rightarrow> (Inr (), w1\<lparr>trace := trace w1 @
                            [Call (RestartEvmService (hostname (ipapp self))) (Returned r)]\<rparr>)))"
  unfolding collect_def bind_print_message
  by (simp add: bind_def call_run return_def split: prod.splits sum.splits outcome.splits)


subsection \<open>The events a program emits\<close>

lemma emitsI:
  assumes "\<And>w. \<exists>evs. snd (p w) = w\<lparr>trace := trace w @ evs\<rparr> \<and> list_all P evs"
  shows "emits P p"
  using assms by (simp add: emits_def)

lemma emitsD:
  assumes "emits P p"
  obtains evs where "snd (p w) = w\<lparr>trace := trace w @ evs\<rparr>" "list_all P evs"
  using assms unfolding emits_def by blast

lemma emits_return: "emits P (return v)"
  by (rule emitsI, rule exI[of _ "[]"]) (simp add: return_def)

lemma emits_raise: "emits P (raise x)"
  by (rule emitsI, rule exI[of _ "[]"]) (simp add: raise_def)

lemma emits_emit: "P ev \<Longrightarrow> emits P (emit ev)"
  by (rule emitsI, rule exI[of _ "[ev]"]) (simp add: emit_def)

lemma emits_call:
  assumes "\<And>out. P (Call c out)"
  shows "emits P (call E c)"
proof (rule emitsI)
  fix w
  have "snd (call E c w) = w\<lparr>trace := trace w @ [Call c (respond E (trace w) c)]\<rparr>"
    by (simp add: call_def Let_def split: outcome.splits)
  moreover have "list_all P [Call c (respond E (trace w) c)]"
    using assms by simp
  ultimately show "\<exists>evs. snd (call E c w) = w\<lparr>trace := trace w @ evs\<rparr> \<and> list_all P evs"
    by blast
qed

lemma emits_bind:
  assumes p: "emits P p" and f: "\<And>v. emits P (f v)"
  shows "emits P (bind p f)"
proof (rule emitsI)
  fix w
  obtain evs where 1: "snd (p w) = w\<lparr>trace := trace w @ evs\<rparr>" "list_all P evs"
    using p by (rule emitsD)
  show "\<exists>evs. snd (bind p f w) = w\<lparr>trace := trace w @ evs\<rparr> \<and> list_all P evs"
  proof (cases "fst (p w)")
    case (Inl x)
    then have "bind p f w = (Inl x, snd (p w))"
      by (cases "p w") (simp add: bind_def)
    with 1 show ?thesis by auto
  next
    case (Inr v)
    then have b: "bind p f w = f v (snd (p w))"
      by (cases "p w") (simp add: bind_def)
    obtain evs' where 2: "snd (f v (snd (p w))) = (snd (p w))\<lparr>trace := trace (snd (p w)) @ evs'\<rparr>"
        "list_all P evs'"
      using f by (rule emitsD)
    have "snd (bind p f w) = w\<lparr>trace := trace w @ (evs @ evs')\<rparr>"
      using b 1 2 by simp
    moreover have "list_all P (evs @ evs')" using 1 2 by simp
    ultimately show ?thesis by blast
  qed
qed

lemma emits_catch:
  assumes p: "emits P p" and h: "\<And>x. emits P (h x)"
  shows "emits P (catch p h)"
proof (rule emitsI)
  fix w
  obtain evs where 1: "snd (p w) = w\<lparr>trace := trace w @ evs\<rparr>" "list_all P evs"
    using p by (rule emitsD)
  show "\<exists>evs. snd (catch p h w) = w\<lparr>trace := trace w @ evs\<rparr> \<and> list_all P evs"
  proof (cases "fst (p w)")
    case (Inr v)
    then have "catch p h w = (Inr v, snd (p w))"
      by (cases "p w") (simp add: catch_def)
    with 1 show ?thesis by auto
  next
    case (Inl x)
    then have b: "catch p h w = h x (snd (p w))"
      by (cases "p w") (simp add: catch_def)
    obtain evs' where 2: "snd (h x (snd (p w))) = (snd (p w))\<lparr>trace := trace (snd (p w)) @ evs'\<rparr>"
        "list_all P evs'"
      using h by (rule emitsD)
    have "snd (catch p h w) = w\<lparr>trace := trace w @ (evs @ evs')\<rparr>"
      using b 1 2 by simp
    moreover have "list_all P (evs @ evs')" using 1 2 by simp
    ultimately show ?thesis by blast
  qed
qed

lemma emits_if: "emits P p \<Longrightarrow> emits P q \<Longrightarrow> emits P (if b then p else q)"
  by simp

lemma emits_collection_appliance: "emits P (collection_appliance S self)"
  by (rule emitsI, rule exI[of _ "[]"])
     (simp add: collection_appliance_def return_def raise_def split: option.splits)

lemma emits_the_manager: "emits P (the_manager E S)"
  by (rule emitsI, rule exI[of _ "[]"]) (simp add: the_manager_def)

lemma emits_print_message:
  assumes "P (LogInfo (log self) m)"
    and "\<And>s. P (SlaveMessage s (''coverage: '' @ m))"
    and "P (SessionMessage (''coverage: '' @ m))"
    and "P (TerminalSep ''-'' (''coverage: '' @ m))"
  shows "emits P (print_message S self m)"
  unfolding print_message_def Let_def
  using assms by (intro emits_bind emits_emit) (auto split: option.splits intro!: emits_emit)

lemma emits_new_events:
  assumes "emits P p"
  shows "list_all P (new_events w (snd (p w)))"
proof -
  obtain evs where "snd (p w) = w\<lparr>trace := trace w @ evs\<rparr>" "list_all P evs"
    using assms by (rule emitsD)
  then show ?thesis by (simp add: new_events_def)
qed


lemmas emits_intros = emits_bind emits_catch emits_return emits_raise emits_emit emits_call
  emits_collection_appliance emits_the_manager emits_print_message

lemma emits_collect_reports:
  assumes "\<And>c t out. P (Call (RunCommand (hostname (ipapp self)) c t) out)"
    and "\<And>m. P (LogInfo (log self) (''sending reports to '' @ m))"
    and "\<And>m. P (LogInfo (log self) (''There was an error sending reports: '' @ m))"
    and "\<And>s m. P (SlaveMessage s (''coverage: '' @ m))"
    and "\<And>m. P (SessionMessage (''coverage: '' @ m))"
    and "\<And>m. P (TerminalSep ''-'' (''coverage: '' @ m))"
  shows "emits P (collect_reports E S self)"
  unfolding collect_reports_def
  using assms by (intro emits_intros emits_if) simp_all

lemma emits_collect:
  assumes "\<And>c t out. P (Call (RunCommand (hostname (ipapp self)) c t) out)"
    and "\<And>out. P (Call (RestartEvmService (hostname (ipapp self))) out)"
    and "P (LogInfo (log self) ''collecting reports'')"
    and "\<And>m. P (LogInfo (log self) (''sending reports to '' @ m))"
    and "\<And>m. P (LogInfo (log self) (''There was an error sending reports: '' @ m))"
    and "\<And>s m. P (SlaveMessage s (''coverage: '' @ m))"
    and "\<And>m. P (SessionMessage (''coverage: '' @ m))"
    and "\<And>m. P (TerminalSep ''-'' (''coverage: '' @ m))"
  shows "emits P (collect E S self)"
  unfolding collect_def
  using assms by (intro emits_intros emits_collect_reports) simp_all

lemma emits_retrieve:
  assumes "\<And>h c t out. P (Call (RunCommand h c t) out)"
    and "\<And>h a b out. P (Call (GetFile h a b) out)"
  shows "emits P (retrieve_coverage_reports E S self)"
  unfolding retrieve_coverage_reports_def
  using assms by (intro emits_intros) simp_all

lemma emits_merge:
  assumes "\<And>h c out. P (Call (RunCommand h c None) out)"
    and "\<And>h a b out. P (Call (GetFile h a b) out)"
    and "P (LogInfo (log self) ''merging reports'')"
    and "P (LogInfo (log self) ''merging reports failed, error has been logged'')"
    and "\<And>m. P (LogError (log self) m)"
    and "\<And>x. P (LogException (log self) x)"
    and "\<And>s m. P (SlaveMessage s (''coverage: '' @ m))"
    and "\<And>m. P (SessionMessage (''coverage: '' @ m))"
    and "\<And>m. P (TerminalSep ''-'' (''coverage: '' @ m))"
  shows "emits P (merge E S self)"
  unfolding merge_def retrieve_coverage_reports_def
  using assms by (intro emits_intros) simp_all

lemma emits_install_simplecov:
  assumes "P (LogInfo (log self) ''Installing coverage gem on appliance'')"
    and "\<And>out. P (Call (PutFile (hostname (ipapp self)) (gemfile E) bundler_d) out)"
    and "\<And>out. P (Call (RunCommand (hostname (ipapp self)) ''yum -y install git'' None) out)"
    and "\<And>out. P (Call (RunCommand (hostname (ipapp self))
                           (''cd '' @ rails_root @ ''; bundle'') None) out)"
    and "\<And>out. P (Call (RunCommand (hostname (ipapp self))
                  ''gem install --install-dir /opt/rh/cfme-gemset/ -v0.9.2 simplecov'' None) out)"
  shows "emits P (install_simplecov E self)"
  unfolding install_simplecov_def
  using assms by (intro emits_intros emits_if) simp_all

lemma first_event:
  assumes "emits (\<lambda>_. True) (f ())"
  shows "take 1 (new_events w (snd (bind (emit ev) f w))) = [ev]"
proof -
  obtain evs where "snd (f () (w\<lparr>trace := trace w @ [ev]\<rparr>))
      = (w\<lparr>trace := trace w @ [ev]\<rparr>)\<lparr>trace := trace (w\<lparr>trace := trace w @ [ev]\<rparr>) @ evs\<rparr>"
    using assms by (rule emitsD)
  then show ?thesis by (simp add: bind_def emit_def new_events_def)
qed

lemma collect_first:
  "take 1 (new_events w (snd (bind (collect E S self) f w))) = [LogInfo (log self) ''collecting reports'']"
  if "\<And>v. emits (\<lambda>_. True) (f v)"
  unfolding collect_def print_message_def bind_assoc
  by (rule first_event) (intro emits_intros emits_collect_reports that; simp split: option.splits add: emits_emit Let_def)

lemma emits_whenI:
  assumes "\<And>w. I (trace w) \<Longrightarrow> \<exists>evs. snd (p w) = w\<lparr>trace := trace w @ evs\<rparr> \<and> list_all P evs"
  shows "emits_when I P p"
  using assms by (simp add: emits_when_def)

lemma emits_whenD:
  assumes "emits_when I P p" and "I (trace w)"
  obtains evs where "snd (p w) = w\<lparr>trace := trace w @ evs\<rparr>" "list_all P evs"
  using assms unfolding emits_when_def by blast

lemma emits_when_emits: "emits P p \<Longrightarrow> emits_when I P p"
  unfolding emits_def emits_when_def by blast

lemma emits_when_bind:
  assumes p: "emits_when I P p" and f: "\<And>v. emits_when I P (f v)"
    and I: "\<And>t evs. I t \<Longrightarrow> I (t @ evs)"
  shows "emits_when I P (bind p f)"
proof (rule emits_whenI)
  fix w :: world assume w: "I (trace w)"
  obtain evs where 1: "snd (p w) = w\<lparr>trace := trace w @ evs\<rparr>" "list_all P evs"
    using p w by (rule emits_whenD)
  show "\<exists>evs. snd (bind p f w) = w\<lparr>trace := trace w @ evs\<rparr> \<and> list_all P evs"
  proof (cases "fst (p w)")
    case (Inl x)
    then have "bind p f w = (Inl x, snd (p w))"
      by (cases "p w") (simp add: bind_def)
    with 1 show ?thesis by auto
  next
    case (Inr v)
    then have b: "bind p f w = f v (snd (p w))"
      by (cases "p w") (simp add: bind_def)
    have "I (trace (snd (p w)))"
      using 1 I[OF w] by simp
    with f obtain evs' where 2:
      "snd (f v (snd (p w))) = (snd (p w))\<lparr>trace := trace (snd (p w)) @ evs'\<rparr>" "list_all P evs'"
      by (rule emits_whenD)
    have "snd (bind p f w) = w\<lparr>trace := trace w @ (evs @ evs')\<rparr>"
      using b 1 2 by simp
    moreover have "list_all P (evs @ evs')" using 1 2 by simp
    ultimately show ?thesis by blast
  qed
qed

subsection \<open>A raised exception ends a program\<close>

lemma failfastI:
  assumes "\<And>w. \<exists>evs. snd (p w) = w\<lparr>trace := trace w @ evs\<rparr> \<and>
       (\<forall>c x. Call c (Raised x) \<in> set evs \<longrightarrow> fst (p w) = Inl x \<and> last evs = Call c (Raised x))"
  shows "failfast p"
  using assms by (simp add: failfast_def)

lemma failfastD:
  assumes "failfast p"
  obtains evs where "snd (p w) = w\<lparr>trace := trace w @ evs\<rparr>"
    "\<And>c x. Call c (Raised x) \<in> set evs \<Longrightarrow> fst (p w) = Inl x \<and> last evs = Call c (Raised x)"
  using assms unfolding failfast_def by blast

lemma failfast_return: "failfast (return v)"
  by (rule failfastI, rule exI[of _ "[]"]) (simp add: return_def)

lemma failfast_raise: "failfast (raise x)"
  by (rule failfastI, rule exI[of _ "[]"]) (simp add: raise_def)


lemma failfast_call: "failfast (call E c)"
proof (rule failfastI)
  fix w
  show "\<exists>evs. snd (call E c w) = w\<lparr>trace := trace w @ evs\<rparr> \<and>
       (\<forall>c' x. Call c' (Raised x) \<in> set evs \<longrightarrow>
          fst (call E c w) = Inl x \<and> last evs = Call c' (Raised x))"
    by (rule exI[of _ "[Call c (respond E (trace w) c)]"], cases "respond E (trace w) c")
       (auto simp add: call_run)
qed

lemma failfast_bind:
  assumes p: "failfast p" and f: "\<And>v. failfast (f v)"
  shows "failfast (bind p f)"
proof (rule failfastI)
  fix w
  obtain evs where 1: "snd (p w) = w\<lparr>trace := trace w @ evs\<rparr>"
    and 2: "\<And>c x. Call c (Raised x) \<in> set evs \<Longrightarrow> fst (p w) = Inl x \<and> last evs = Call c (Raised x)"
    using p by (rule failfastD[where w = w]) blast
  show "\<exists>evs. snd (bind p f w) = w\<lparr>trace := trace w @ evs\<rparr> \<and>
       (\<forall>c x. Call c (Raised x) \<in> set evs \<longrightarrow>
          fst (bind p f w) = Inl x \<and> last evs = Call c (Raised x))"
  proof (cases "fst (p w)")
    case (Inl x)
    then have "bind p f w = (Inl x, snd (p w))"
      by (cases "p w") (simp add: bind_def)
    with 1 2 Inl show ?thesis by auto
  next
    case (Inr v)
    then have b: "bind p f w = f v (snd (p w))"
      by (cases "p w") (simp add: bind_def)
    obtain evs' where 3: "snd (f v (snd (p w))) = (snd (p w))\<lparr>trace := trace (snd (p w)) @ evs'\<rparr>"
      and 4: "\<And>c x. Call c (Raised x) \<in> set evs' \<Longrightarrow>
                fst (f v (snd (p w))) = Inl x \<and> last evs' = Call c (Raised x)"
      using f by (rule failfastD[where w = "snd (p w)"]) blast
    have quiet: "Call c (Raised x) \<notin> set evs" for c x
      using 2[of c x] Inr by auto
    have "snd (bind p f w) = w\<lparr>trace := trace w @ (evs @ evs')\<rparr>"
      using b 1 3 by simp
    moreover have "fst (bind p f w) = Inl x \<and> last (evs @ evs') = Call c (Raised x)"
      if "Call c (Raised x) \<in> set (evs @ evs')" for c x
    proof -
      from that quiet have m: "Call c (Raised x) \<in> set evs'" by auto
      then have "evs' \<noteq> []" by auto
      with 4[OF m] b show ?thesis by simp
    qed
    ultimately show ?thesis by blast
  qed
qed

lemma failfast_print_message: "failfast (print_message S self m)"
  by (rule failfastI,
      rule exI[of _ "[LogInfo (log self) m, message_event S (''coverage: '' @ m)]"])
     (auto simp add: print_message_run message_event_def split: option.splits if_splits)

lemma failfast_collection_appliance: "failfast (collection_appliance S self)"
  by (rule failfastI, rule exI[of _ "[]"])
     (simp add: collection_appliance_def return_def raise_def split: option.splits)

lemmas failfast_intros = failfast_bind failfast_return failfast_raise failfast_call
  failfast_print_message failfast_collection_appliance







lemma failfast_extends:
  assumes "failfast p"
  obtains evs where "snd (p w) = w\<lparr>trace := trace w @ evs\<rparr>"
  using assms unfolding failfast_def by blast


subsection \<open>Evaluation on the sample fleet\<close>

lemmas sample_defs = sample_env_def sample_store_def sample_manager_def fresh_def


lemmas run_simps = bind_assoc bind_call bind_emit bind_print_message bind_collection_appliance
  print_message_run call_run return_def raise_def message_event_def

lemmas path_defs = join_def rails_root_def appliance_coverage_root_def coverage_data_def
  gemfile_def bundler_d_def coverage_hook_file_name_def coverage_hook_def
  coverage_output_dir_def coverage_results_archive_def marker_check_def
  coverage_hook_patch_name_def remote_coverage_hook_patch_def patch_command_def
  stop_command_def scp_command_def tar_command_def

lemma manager_sample:
  "manager (sample_env f) (sample_store role ''10.0.0.1'') = Inr (sample_manager role ''10.0.0.1'')"
  by (simp add: manager_def CoverageManager_init_def sample_env_def sample_store_def sample_manager_def)

subsection \<open>Session finish\<close>

text \<open>
  C1: at session finish, \<open>collect()\<close> is invoked on every process whose role is not
  master; a slave is done after \<open>collect()\<close>; \<open>merge()\<close> is invoked only on the master
  and on a standalone process, and there after \<open>collect()\<close>. With \<open>m\<close> the manager of
  the process: the hook of a slave is \<open>collect\<close> and never logs the start of a merge,
  the hook of the master is \<open>merge\<close> and never logs the start of a collection, the
  hook of any other process is \<open>collect\<close> followed by \<open>merge\<close>, and off the master
  the first thing the hook does is to announce the collection.
\<close>

theorem pytest_sessionfinish_dispatch:
  assumes "manager E S = Inr m"
  shows "(parallelizer_role S = ''slave'' \<longrightarrow>
            pytest_sessionfinish E S = collect E S m
          \<and> LogInfo (log m) ''merging reports'' \<notin> set (new_events w (snd (pytest_sessionfinish E S w))))
       \<and> (parallelizer_role S = ''master'' \<longrightarrow>
            pytest_sessionfinish E S = merge E S m
          \<and> LogInfo (log m) ''collecting reports'' \<notin> set (new_events w (snd (pytest_sessionfinish E S w))))
       \<and> (parallelizer_role S \<noteq> ''slave'' \<and> parallelizer_role S \<noteq> ''master'' \<longrightarrow>
            pytest_sessionfinish E S = bind (collect E S m) (\<lambda>_. merge E S m))
       \<and> (parallelizer_role S \<noteq> ''master'' \<longrightarrow>
            take 1 (new_events w (snd (pytest_sessionfinish E S w))) = [LogInfo (log m) ''collecting reports''])"
proof -
  have slave: "pytest_sessionfinish E S = collect E S m" if "parallelizer_role S = ''slave''"
    using that by (rule_tac ext) (simp add: pytest_sessionfinish_def the_manager_Inr[OF assms] bind_def return_def
        split: prod.splits sum.splits)
  have master: "pytest_sessionfinish E S = merge E S m" if "parallelizer_role S = ''master''"
    using that by (simp add: pytest_sessionfinish_def the_manager_Inr[OF assms])
  have alone: "pytest_sessionfinish E S = bind (collect E S m) (\<lambda>_. merge E S m)"
    if "parallelizer_role S \<noteq> ''slave''" "parallelizer_role S \<noteq> ''master''"
    using that by (simp add: pytest_sessionfinish_def the_manager_Inr[OF assms])
  have nomerge: "list_all (\<lambda>ev. ev \<noteq> LogInfo (log m) ''merging reports'')
                   (new_events w (snd (collect E S m w)))"
    by (rule emits_new_events, rule emits_collect) simp_all
  have nocollect: "list_all (\<lambda>ev. ev \<noteq> LogInfo (log m) ''collecting reports'')
                   (new_events w (snd (merge E S m w)))"
    by (rule emits_new_events, rule emits_merge) simp_all
  have first: "take 1 (new_events w (snd (pytest_sessionfinish E S w))) = [LogInfo (log m) ''collecting reports'']"
    if "parallelizer_role S \<noteq> ''master''"
  proof (cases "parallelizer_role S = ''slave''")
    case True
    have "collect E S m = bind (collect E S m) return"
      by (rule ext) (simp add: bind_def return_def split: prod.splits sum.splits)
    then have "pytest_sessionfinish E S = bind (collect E S m) return"
      using slave[OF True] by simp
    then show ?thesis
      by (simp only:) (rule collect_first, rule emits_return)
  next
    case False
    show ?thesis
      by (simp only: alone[OF False that]) (rule collect_first, rule emits_merge; simp)
  qed
  show ?thesis
    using slave master alone nomerge nocollect first
    by (auto simp: list_all_iff)
qed

theorem pytest_sessionfinish_dispatch_witness:
  "pytest_sessionfinish (sample_env all_ok) (sample_store ''slave'' ''10.0.0.1'')
     = collect (sample_env all_ok) (sample_store ''slave'' ''10.0.0.1'')
         (sample_manager ''slave'' ''10.0.0.1'')
   \<and> LogInfo ''slave0 coverage'' ''merging reports''
       \<notin> set (new_events fresh (snd (pytest_sessionfinish (sample_env all_ok)
                                        (sample_store ''slave'' ''10.0.0.1'') fresh)))
   \<and> pytest_sessionfinish (sample_env all_ok) (sample_store ''master'' ''10.0.0.1'')
     = merge (sample_env all_ok) (sample_store ''master'' ''10.0.0.1'')
         (sample_manager ''master'' ''10.0.0.1'')
   \<and> LogInfo ''coverage'' ''collecting reports''
       \<notin> set (new_events fresh (snd (pytest_sessionfinish (sample_env all_ok)
                                        (sample_store ''master'' ''10.0.0.1'') fresh)))
   \<and> pytest_sessionfinish (sample_env all_ok) (sample_store ''standalone'' ''10.0.0.1'')
     = bind (collect (sample_env all_ok) (sample_store ''standalone'' ''10.0.0.1'')
               (sample_manager ''standalone'' ''10.0.0.1''))
            (\<lambda>_. merge (sample_env all_ok) (sample_store ''standalone'' ''10.0.0.1'')
               (sample_manager ''standalone'' ''10.0.0.1''))
   \<and> take 1 (new_events fresh (snd (pytest_sessionfinish (sample_env all_ok)
                                      (sample_store ''standalone'' ''10.0.0.1'') fresh)))
     = [LogInfo ''coverage'' ''collecting reports'']"
proof -
  have role: "parallelizer_role (sample_store r h) = r" for r h
    by (simp add: sample_store_def)
  have lg: "log (sample_manager ''slave'' h) = ''slave0 coverage''"
    "log (sample_manager ''master'' h) = ''coverage''"
    "log (sample_manager ''standalone'' h) = ''coverage''" for h
    by (simp_all add: sample_manager_def)
  show ?thesis
    using
      pytest_sessionfinish_dispatch [of "sample_env all_ok" "sample_store ''slave'' ''10.0.0.1''"
        "sample_manager ''slave'' ''10.0.0.1''" fresh, OF manager_sample, unfolded role lg, simplified]
      pytest_sessionfinish_dispatch [of "sample_env all_ok" "sample_store ''master'' ''10.0.0.1''"
        "sample_manager ''master'' ''10.0.0.1''" fresh, OF manager_sample, unfolded role lg, simplified]
      pytest_sessionfinish_dispatch [of "sample_env all_ok"
        "sample_store ''standalone'' ''10.0.0.1''"
        "sample_manager ''standalone'' ''10.0.0.1''" fresh, OF manager_sample, unfolded role lg, simplified]
    by (elim conjE, intro conjI) (assumption | simp (no_asm) only: One_nat_def)+
qed

subsection \<open>Errors in the merge phase\<close>



subsection \<open>Collecting the reports\<close>

lemma collect_reports_run:
  "collect_reports E S self w =
     (case respond E (trace w) (RunCommand (hostname (ipapp self)) stop_command None) of
        Raised x \<Rightarrow>
          (Inl x, w\<lparr>trace := trace w @
                     [Call (RunCommand (hostname (ipapp self)) stop_command None) (Raised x)]\<rparr>)
      | Returned r0 \<Rightarrow>
          (case fst (collection_appliance S self w) of
             Inl x \<Rightarrow>
               (Inl x, w\<lparr>trace := trace w @
                     [Call (RunCommand (hostname (ipapp self)) stop_command None) (Returned r0)]\<rparr>)
           | Inr ca \<Rightarrow>
               if current_appliance S = ca
               then (Inr (), w\<lparr>trace := trace w @
                     [Call (RunCommand (hostname (ipapp self)) stop_command None) (Returned r0)]\<rparr>)
               else
                 (case respond E
                         (trace w @
                          [Call (RunCommand (hostname (ipapp self)) stop_command None) (Returned r0),
                           LogInfo (log self) (''sending reports to '' @ hostname ca),
                           message_event S (''coverage: sending reports to '' @ hostname ca)])
                         (RunCommand (hostname (ipapp self))
                            (scp_command E self (hostname ca)) (Some 1800)) of
                    Raised x \<Rightarrow>
                      (Inl x, w\<lparr>trace := trace w @
                         [Call (RunCommand (hostname (ipapp self)) stop_command None) (Returned r0),
                          LogInfo (log self) (''sending reports to '' @ hostname ca),
                          message_event S (''coverage: sending reports to '' @ hostname ca),
                          Call (RunCommand (hostname (ipapp self))
                                  (scp_command E self (hostname ca)) (Some 1800)) (Raised x)]\<rparr>)
                  | Returned r \<Rightarrow>
                      (Inr (), w\<lparr>trace := trace w @
                         [Call (RunCommand (hostname (ipapp self)) stop_command None) (Returned r0),
                          LogInfo (log self) (''sending reports to '' @ hostname ca),
                          message_event S (''coverage: sending reports to '' @ hostname ca),
                          Call (RunCommand (hostname (ipapp self))
                                  (scp_command E self (hostname ca)) (Some 1800)) (Returned r)]
                         @ (if success r then []
                            else [LogInfo (log self)
                                    (''There was an error sending reports: '' @ stdout r),
                                  message_event S
                                    (''coverage: There was an error sending reports: ''
                                     @ stdout r)])\<rparr>))))"
  unfolding collect_reports_def
  by (simp add: bind_call bind_collection_appliance bind_print_message print_message_run return_def
      result_bool_def result_str_def
      split: outcome.splits sum.splits)









subsection \<open>Failures during install\<close>







subsection \<open>The merge rule\<close>

lemma merge_into_file:
  "foldl merge_into acc sets f = foldl merge_step (acc f) (contributing f sets)"
proof (induction sets arbitrary: acc)
  case Nil
  show ?case by (simp add: contributing_def List.map_filter_simps)
next
  case (Cons raw sets)
  have "foldl merge_into acc (raw # sets) f
          = foldl merge_step (merge_into acc raw f) (contributing f sets)"
    by (simp add: Cons.IH)
  also have "\<dots> = foldl merge_step (acc f) (contributing f (raw # sets))"
    by (cases "raw f"; cases "acc f")
       (simp_all add: merge_into_def contributing_def List.map_filter_simps)
  finally show ?case .
qed

lemma merge_step_same_shape:
  assumes "\<forall>ls\<in>set cs. length ls = length ms"
  shows "foldl merge_step (Some (Merged ms)) cs = Some (Merged (foldl (map2 merge_line) ms cs))
       \<and> length (foldl (map2 merge_line) ms cs) = length ms"
  using assms
proof (induction cs arbitrary: ms)
  case Nil
  show ?case by simp
next
  case (Cons c cs)
  then have "\<forall>ls\<in>set cs. length ls = length (map2 merge_line ms c)"
    by simp
  from Cons.IH[OF this] Cons.prems show ?case
    by simp
qed

lemma merged_lines_nth:
  assumes "\<forall>ls\<in>set cs. length ls = length ms" and "i < length ms"
  shows "foldl (map2 merge_line) ms cs ! i = foldl merge_line (ms ! i) (map (\<lambda>ls. ls ! i) cs)"
  using assms
proof (induction cs arbitrary: ms)
  case Nil
  show ?case by simp
next
  case (Cons c cs)
  then have len: "\<forall>ls\<in>set cs. length ls = length (map2 merge_line ms c)"
    and i: "i < length (map2 merge_line ms c)"
    by simp_all
  from Cons.IH[OF len i] Cons.prems show ?case
    by simp
qed

lemma merged_value_merge_line:
  "merged_value (merge_line v x # vs) = merged_value (v # x # vs)"
  by (cases v; cases x) (simp_all add: merged_value_def)

lemma merge_line_merged_value:
  "foldl merge_line v vs = merged_value (v # vs)"
proof (induction vs arbitrary: v)
  case Nil
  show ?case by (cases v) (simp_all add: merged_value_def)
next
  case (Cons x vs)
  show ?case
    by (simp add: Cons.IH merged_value_merge_line)
qed

text \<open>
  C5: for a file present in K of the N sets with the same number of lines in each, the
  merged value at line \<open>i\<close> is null when all K values at \<open>i\<close> are null and otherwise
  the sum of the non-null values; merging \<open>[1, null, 3]\<close> with \<open>[2, null, 0]\<close> gives
  \<open>[3, null, 3]\<close>.
\<close>

theorem merge_rule:
  "(contributing f sets = c # cs \<and> (\<forall>ls\<in>set cs. length ls = length c) \<and> i < length c \<longrightarrow>
      (\<exists>ms. merge_result_sets sets f = Some (Merged ms)
           \<and> length ms = length c
           \<and> ms ! i = merged_value (map (\<lambda>ls. ls ! i) (c # cs))))
   \<and> merge_result_sets [[''app/models/vm.rb'' \<mapsto> [Some 1, None, Some 3]],
                         [''app/models/vm.rb'' \<mapsto> [Some 2, None, Some 0]]]
        ''app/models/vm.rb''
     = Some (Merged [Some 3, None, Some 3])"
proof -
  have general: "\<exists>ms. merge_result_sets sets f = Some (Merged ms)
           \<and> length ms = length c
           \<and> ms ! i = merged_value (map (\<lambda>ls. ls ! i) (c # cs))"
    if c: "contributing f sets = c # cs" and len: "\<forall>ls\<in>set cs. length ls = length c"
      and i: "i < length c"
  proof -
    have "merge_result_sets sets f = foldl merge_step (Some (Merged c)) cs"
      by (simp add: merge_result_sets_def merge_into_file c)
    also have "\<dots> = Some (Merged (foldl (map2 merge_line) c cs))"
      using merge_step_same_shape[OF len] by simp
    finally have 1: "merge_result_sets sets f = Some (Merged (foldl (map2 merge_line) c cs))" .
    have 2: "length (foldl (map2 merge_line) c cs) = length c"
      using merge_step_same_shape[OF len] by simp
    have "foldl (map2 merge_line) c cs ! i = foldl merge_line (c ! i) (map (\<lambda>ls. ls ! i) cs)"
      using len i by (rule merged_lines_nth)
    also have "\<dots> = merged_value (map (\<lambda>ls. ls ! i) (c # cs))"
      by (simp add: merge_line_merged_value)
    finally show ?thesis using 1 2 by blast
  qed
  have example: "merge_result_sets [[''app/models/vm.rb'' \<mapsto> [Some 1, None, Some 3]],
                         [''app/models/vm.rb'' \<mapsto> [Some 2, None, Some 0]]]
        ''app/models/vm.rb''
     = Some (Merged [Some 3, None, Some 3])"
    by (simp add: merge_result_sets_def merge_into_def)
  show ?thesis using general example by blast
qed

theorem merge_rule_witness:
  "contributing ''app/models/vm.rb''
     [[''app/models/vm.rb'' \<mapsto> [Some 1, None, Some 3]],
      [''lib/util.rb'' \<mapsto> [Some 7]],
      [''app/models/vm.rb'' \<mapsto> [Some 2, None, Some 0]]]
     = [[Some 1, None, Some 3], [Some 2, None, Some 0]]
   \<and> (\<exists>ms. merge_result_sets
               [[''app/models/vm.rb'' \<mapsto> [Some 1, None, Some 3]],
                [''lib/util.rb'' \<mapsto> [Some 7]],
                [''app/models/vm.rb'' \<mapsto> [Some 2, None, Some 0]]]
               ''app/models/vm.rb'' = Some (Merged ms)
           \<and> length ms = 3 \<and> ms ! 0 = Some 3)
   \<and> (\<exists>ms. merge_result_sets
               [[''app/models/vm.rb'' \<mapsto> [Some 1, None, Some 3]],
                [''lib/util.rb'' \<mapsto> [Some 7]],
                [''app/models/vm.rb'' \<mapsto> [Some 2, None, Some 0]]]
               ''app/models/vm.rb'' = Some (Merged ms)
           \<and> length ms = 3 \<and> ms ! 1 = None)"
proof -
  let ?f = "''app/models/vm.rb''"
  let ?sets = "[[?f \<mapsto> [Some 1, None, Some 3]], [''lib/util.rb'' \<mapsto> [Some 7]],
                [?f \<mapsto> [Some (2::nat), None, Some 0]]]"
  have c: "contributing ?f ?sets = [Some 1, None, Some 3] # [[Some 2, None, Some 0]]"
    by (simp add: contributing_def List.map_filter_simps)
  have len: "\<forall>ls\<in>set [[Some (2::nat), None, Some 0]]. length ls = length [Some (1::nat), None, Some 3]"
    by simp
  have i0: "0 < length [Some (1::nat), None, Some 3]" and i1: "1 < length [Some (1::nat), None, Some 3]"
    by simp_all
  note t = merge_rule [THEN conjunct1, rule_format]
  note t0 = t [OF conjI [OF c conjI [OF len i0]]]
  note t1 = t [OF conjI [OF c conjI [OF len i1]]]
  have v0: "merged_value (map (\<lambda>ls. ls ! 0) ([Some (1::nat), None, Some 3] # [[Some 2, None, Some 0]]))
              = Some 3"
    and v1: "merged_value (map (\<lambda>ls. ls ! 1) ([Some (1::nat), None, Some 3] # [[Some 2, None, Some 0]]))
              = None"
    by (simp_all add: merged_value_def)
  from c t0 [unfolded v0] t1 [unfolded v1] show ?thesis
    by (simp add: numeral_3_eq_3)
qed

subsection \<open>The integration patch\<close>

lemma marked_append: "marked h hist \<Longrightarrow> marked h (hist @ evs)"
  by (simp add: marked_def)

lemma marked_simps:
  "marked h [] = False"
  "marked h (ev # evs) = (marks h ev \<or> marked h evs)"
  by (simp_all add: marked_def)

lemma hook_shape:
  "\<exists>rest. install_coverage_hook E self =
      bind (call E (RunCommand (hostname (ipapp self))
                     (''rm -rf '' @ appliance_coverage_root) None)) (\<lambda>_.
      bind (call E (PutFile (hostname (ipapp self)) (coverage_hook E)
                     (join (join rails_root ''config'') coverage_hook_file_name))) (\<lambda>_.
      bind (call E (RunCommand (hostname (ipapp self)) marker_check None)) (\<lambda>result.
      if success result then return True else rest)))
    \<and> emits (\<lambda>ev. \<forall>out. ev \<noteq> Call (RunCommand (hostname (ipapp self)) marker_check None) out)
          rest"
  unfolding install_coverage_hook_def
  apply (rule exI, rule conjI, rule refl)
  apply (intro emits_intros)
  apply (simp_all add: emits_intros path_defs install_patch_command_def split: option.splits)
  done

lemma hook_marker_present:
  assumes mem: "Call (RunCommand (hostname (ipapp self)) marker_check None) (Returned r)
                  \<in> set (new_events w (snd (install_coverage_hook E self w)))"
    and r: "success r"
  shows "fst (install_coverage_hook E self w) = Inr True
       \<and> (\<exists>r1 r2. new_events w (snd (install_coverage_hook E self w)) =
            [Call (RunCommand (hostname (ipapp self)) (''rm -rf '' @ appliance_coverage_root) None)
               (Returned r1),
             Call (PutFile (hostname (ipapp self)) (coverage_hook E)
                     (join (join rails_root ''config'') coverage_hook_file_name)) (Returned r2),
             Call (RunCommand (hostname (ipapp self)) marker_check None) (Returned r)])"
proof -
  let ?h = "hostname (ipapp self)"
  let ?rm = "RunCommand ?h (''rm -rf '' @ appliance_coverage_root) None"
  let ?put = "PutFile ?h (coverage_hook E) (join (join rails_root ''config'') coverage_hook_file_name)"
  let ?chk = "RunCommand ?h marker_check None"
  obtain rest where shape: "install_coverage_hook E self =
      bind (call E ?rm) (\<lambda>_. bind (call E ?put) (\<lambda>_. bind (call E ?chk) (\<lambda>result.
      if success result then return True else rest)))"
    and rest: "emits (\<lambda>ev. \<forall>out. ev \<noteq> Call ?chk out) rest"
    using hook_shape[of E self] by blast
  have ne: "?rm \<noteq> ?chk" by (simp add: path_defs)
  show ?thesis
  proof (cases "respond E (trace w) ?rm")
    case (Raised x)
    with mem ne show ?thesis
      by (simp add: shape bind_call)
  next
    case r1: (Returned r1)
    let ?t1 = "trace w @ [Call ?rm (Returned r1)]"
    show ?thesis
    proof (cases "respond E ?t1 ?put")
      case (Raised x)
      with mem ne r1 show ?thesis
        by (simp add: shape bind_call new_events_def)
    next
      case r2: (Returned r2)
      let ?t2 = "trace w @ [Call ?rm (Returned r1), Call ?put (Returned r2)]"
      show ?thesis
      proof (cases "respond E ?t2 ?chk")
        case (Raised x)
        with mem ne r1 r2 show ?thesis
          by (simp add: shape bind_call new_events_def)
      next
        case r3: (Returned r3)
        show ?thesis
        proof (cases "success r3")
          case True
          with mem ne r1 r2 r3 show ?thesis
            by (simp add: shape bind_call new_events_def return_def)
        next
          case False
          let ?w3 = "w\<lparr>trace := trace w @ [Call ?rm (Returned r1), Call ?put (Returned r2),
                                          Call ?chk (Returned r3)]\<rparr>"
          obtain evs where evs: "snd (rest ?w3) = ?w3\<lparr>trace := trace ?w3 @ evs\<rparr>"
            and quiet: "list_all (\<lambda>ev. \<forall>out. ev \<noteq> Call ?chk out) evs"
            using rest by (rule emitsD[where w = ?w3])
          have "install_coverage_hook E self w = rest ?w3"
            using r1 r2 r3 False by (simp add: shape bind_call)
          then have "new_events w (snd (install_coverage_hook E self w)) =
              [Call ?rm (Returned r1), Call ?put (Returned r2), Call ?chk (Returned r3)] @ evs"
            using evs by (simp add: new_events_def)
          with mem ne quiet have "r = r3"
            by (auto simp: list_all_iff)
          with r False show ?thesis by simp
        qed
      qed
    qed
  qed
qed

lemma final_bind:
  assumes "\<And>v w'. fst (f v w') = Inr b \<Longrightarrow> R (trace (snd (f v w')))"
    and "fst (bind p f w) = Inr b"
  shows "R (trace (snd (bind p f w)))"
proof -
  from assms(2) obtain u where "bind p f w = f u (snd (p w))"
    by (rule bind_Inr_elim)
  with assms show ?thesis by simp
qed

lemma final_call:
  assumes "\<And>r w'. fst (f r (w'\<lparr>trace := trace w' @ [Call c (Returned r)]\<rparr>)) = Inr b \<Longrightarrow>
             R (trace (snd (f r (w'\<lparr>trace := trace w' @ [Call c (Returned r)]\<rparr>))))"
    and "fst (bind (call E c) f w) = Inr b"
  shows "R (trace (snd (bind (call E c) f w)))"
  using assms by (cases "respond E (trace w) c") (simp_all add: bind_call)

lemma hook_marks:
  assumes "fst (install_coverage_hook E self w) = Inr True"
  shows "marked (hostname (ipapp self)) (trace (snd (install_coverage_hook E self w)))"
  using assms unfolding install_coverage_hook_def
proof (elim final_call [rotated], goal_cases)
  case (1 r1 w1 r2 w2 r3 w3)
  show ?case
  proof (cases "success r3")
    case True
    then show ?thesis by (simp add: return_def marked_def)
  next
    case False
    with 1 show ?thesis
      apply (simp only: if_False)
      apply (erule final_bind [rotated])
      apply (erule final_call [rotated])
      apply (erule final_call [rotated])
      apply (erule final_bind [rotated])
      apply (erule final_call [rotated])
      apply (simp add: return_def marked_def)
      done
  qed
qed

lemma hook_when_marked:
  assumes persists: "marker_persists E (hostname (ipapp self))"
  shows "emits_when (marked (hostname (ipapp self)))
           (\<lambda>ev. \<not> is_patch_step (hostname (ipapp self)) ev)
           (install_coverage_hook E self)"
proof (rule emits_whenI)
  fix w :: world
  let ?h = "hostname (ipapp self)"
  let ?rm = "RunCommand ?h (''rm -rf '' @ appliance_coverage_root) None"
  let ?put = "PutFile ?h (coverage_hook E) (join (join rails_root ''config'') coverage_hook_file_name)"
  let ?chk = "RunCommand ?h marker_check None"
  assume m: "marked ?h (trace w)"
  obtain rest where shape: "install_coverage_hook E self =
      bind (call E ?rm) (\<lambda>_. bind (call E ?put) (\<lambda>_. bind (call E ?chk) (\<lambda>result.
      if success result then return True else rest)))"
    using hook_shape[of E self] by blast
  have np: "\<not> is_patch_step ?h (Call ?rm out)" "\<not> is_patch_step ?h (Call ?put out)"
    "\<not> is_patch_step ?h (Call ?chk out)" for out
    by (simp_all add: path_defs)
  show "\<exists>evs. snd (install_coverage_hook E self w) = w\<lparr>trace := trace w @ evs\<rparr>
              \<and> list_all (\<lambda>ev. \<not> is_patch_step ?h ev) evs"
  proof (cases "respond E (trace w) ?rm")
    case (Raised x)
    then have "snd (install_coverage_hook E self w) = w\<lparr>trace := trace w @ [Call ?rm (Raised x)]\<rparr>"
      by (simp add: shape bind_call)
    with np show ?thesis by (intro exI[of _ "[Call ?rm (Raised x)]"]) simp
  next
    case r1: (Returned r1)
    let ?t1 = "trace w @ [Call ?rm (Returned r1)]"
    show ?thesis
    proof (cases "respond E ?t1 ?put")
      case (Raised x)
      with r1 have "snd (install_coverage_hook E self w) =
          w\<lparr>trace := trace w @ [Call ?rm (Returned r1), Call ?put (Raised x)]\<rparr>"
        by (simp add: shape bind_call)
      with np show ?thesis
        by (intro exI[of _ "[Call ?rm (Returned r1), Call ?put (Raised x)]"]) simp
    next
      case r2: (Returned r2)
      let ?t2 = "trace w @ [Call ?rm (Returned r1), Call ?put (Returned r2)]"
      have m2: "marked ?h ?t2" using m by (rule marked_append)
      show ?thesis
      proof (cases "respond E ?t2 ?chk")
        case (Raised x)
        with r1 r2 have "snd (install_coverage_hook E self w) =
          w\<lparr>trace := trace w @ [Call ?rm (Returned r1), Call ?put (Returned r2),
                                 Call ?chk (Raised x)]\<rparr>"
          by (simp add: shape bind_call)
        with np show ?thesis
          by (intro exI[of _ "[Call ?rm (Returned r1), Call ?put (Returned r2),
                               Call ?chk (Raised x)]"]) simp
      next
        case r3: (Returned r3)
        with persists m2 have "success r3"
          unfolding marker_persists_def by blast
        with r1 r2 r3 have "snd (install_coverage_hook E self w) =
          w\<lparr>trace := trace w @ [Call ?rm (Returned r1), Call ?put (Returned r2),
                                 Call ?chk (Returned r3)]\<rparr>"
          by (simp add: shape bind_call return_def)
        with np show ?thesis
          by (intro exI[of _ "[Call ?rm (Returned r1), Call ?put (Returned r2),
                               Call ?chk (Returned r3)]"]) simp
      qed
    qed
  qed
qed

lemma install_when_marked:
  assumes persists: "marker_persists E (hostname (ipapp self))"
  shows "emits_when (marked (hostname (ipapp self)))
           (\<lambda>ev. \<not> is_patch_step (hostname (ipapp self)) ev)
           (install E S self)"
  unfolding install_def
  apply (intro emits_when_bind)
  apply (simp_all only: marked_append)
  apply (rule emits_when_emits, rule emits_print_message; simp)
  apply (rule emits_when_emits, rule emits_install_simplecov; simp add: path_defs)
  apply (rule hook_when_marked, rule persists)
  apply (rule emits_when_emits, rule emits_call; simp)
  apply (rule emits_when_emits, rule emits_call; simp)
  apply (rule emits_when_emits, rule emits_return)
  done

text \<open>
  C6: the patch step of \<open>install()\<close> is idempotent. When the check for the marker file
  \<open>lib/code_coverage.rb\<close> succeeds, \<open>_install_coverage_hook\<close> returns \<open>True\<close> having
  only cleaned the coverage directory, put the hook and made the check: no patch is
  put or applied. A run that returns \<open>True\<close> leaves the history marked; and from a
  marked history, in an environment where the marker persists, \<open>install()\<close> makes no
  patch step and leaves the history marked, so this holds for every later run.
\<close>

theorem install_coverage_hook_idempotent:
  "(\<forall>r. Call (RunCommand (hostname (ipapp self)) marker_check None) (Returned r)
            \<in> set (new_events w (snd (install_coverage_hook E self w)))
          \<and> success r \<longrightarrow>
        fst (install_coverage_hook E self w) = Inr True
      \<and> (\<exists>r1 r2. new_events w (snd (install_coverage_hook E self w)) =
            [Call (RunCommand (hostname (ipapp self)) (''rm -rf '' @ appliance_coverage_root) None)
               (Returned r1),
             Call (PutFile (hostname (ipapp self)) (coverage_hook E)
                     (join (join rails_root ''config'') coverage_hook_file_name)) (Returned r2),
             Call (RunCommand (hostname (ipapp self)) marker_check None) (Returned r)]))
   \<and> (fst (install_coverage_hook E self w) = Inr True \<longrightarrow>
        marked (hostname (ipapp self)) (trace (snd (install_coverage_hook E self w))))
   \<and> (marker_persists E (hostname (ipapp self)) \<and> marked (hostname (ipapp self)) (trace w) \<longrightarrow>
        \<not> list_ex (is_patch_step (hostname (ipapp self)))
             (new_events w (snd (install E S self w)))
      \<and> marked (hostname (ipapp self)) (trace (snd (install E S self w))))"
proof -
  have again: "\<not> list_ex (is_patch_step (hostname (ipapp self)))
             (new_events w (snd (install E S self w)))
      \<and> marked (hostname (ipapp self)) (trace (snd (install E S self w)))"
    if p: "marker_persists E (hostname (ipapp self))"
      and m: "marked (hostname (ipapp self)) (trace w)"
  proof -
    obtain evs where evs: "snd (install E S self w) = w\<lparr>trace := trace w @ evs\<rparr>"
      and no: "list_all (\<lambda>ev. \<not> is_patch_step (hostname (ipapp self)) ev) evs"
      using install_when_marked[OF p] m by (rule emits_whenD)
    from no have "\<not> list_ex (is_patch_step (hostname (ipapp self))) evs"
      by (simp add: list_all_iff list_ex_iff)
    moreover have "marked (hostname (ipapp self)) (trace w @ evs)"
      using m by (rule marked_append)
    ultimately show ?thesis
      by (simp add: evs)
  qed
  show ?thesis
    using hook_marker_present[of self _ w E] hook_marks[of E self w] again
    by blast
qed

lemma marker_aware_persists: "marker_persists (sample_env marker_aware) h"
  by (simp add: marker_persists_def sample_env_def marker_aware_def)

lemma hook_first:
  "install_coverage_hook (sample_env marker_aware) (sample_manager ''standalone'' ''10.0.0.1'')
     fresh =
   (Inr True,
    \<lparr>trace =
       [Call (RunCommand ''10.0.0.1'' ''rm -rf /var/www/miq/vmdb/coverage'' None) (Returned ok),
        Call (PutFile ''10.0.0.1'' ''/data/coverage/coverage_hook.rb''
                ''/var/www/miq/vmdb/config/coverage_hook.rb'') (Returned ok),
        Call (RunCommand ''10.0.0.1'' ''cd /var/www/miq/vmdb; [ -e lib/code_coverage.rb ]'' None)
             (Returned \<lparr>success = False, stdout = ''''\<rparr>),
        LogInfo ''coverage'' ''Patching system with manageiq patch #17302'',
        Call (PutFile ''10.0.0.1'' ''/data/coverage/manageiq-17302.patch''
                ''/var/www/miq/vmdb/manageiq-17302.patch'') (Returned ok),
        Call (RunCommand ''10.0.0.1'' ''rpm -q patch'' None) (Returned ok),
        Call (RunCommand ''10.0.0.1''
                ''cd /var/www/miq/vmdb; patch -p1 < /var/www/miq/vmdb/manageiq-17302.patch'' None)
             (Returned ok)],
     ui_coverage_conf = Map.empty\<rparr>)"
  by (simp add: install_coverage_hook_def run_simps sample_defs path_defs marker_aware_def
      marked_simps ok_def)

lemma hook_second:
  "new_events once_patched
     (snd (install_coverage_hook (sample_env marker_aware)
             (sample_manager ''standalone'' ''10.0.0.1'') once_patched)) =
   [Call (RunCommand ''10.0.0.1'' ''rm -rf /var/www/miq/vmdb/coverage'' None) (Returned ok),
    Call (PutFile ''10.0.0.1'' ''/data/coverage/coverage_hook.rb''
            ''/var/www/miq/vmdb/config/coverage_hook.rb'') (Returned ok),
    Call (RunCommand ''10.0.0.1'' ''cd /var/www/miq/vmdb; [ -e lib/code_coverage.rb ]'' None)
         (Returned ok)]"
  unfolding once_patched_def hook_first
  by (simp add: install_coverage_hook_def run_simps sample_defs path_defs marker_aware_def
      marked_simps ok_def new_events_def)

theorem install_coverage_hook_idempotent_witness:
  "list_ex (is_patch_step ''10.0.0.1'')
     (new_events fresh
        (snd (install_coverage_hook (sample_env marker_aware)
                (sample_manager ''standalone'' ''10.0.0.1'') fresh)))
   \<and> marked ''10.0.0.1'' (trace once_patched)
   \<and> fst (install_coverage_hook (sample_env marker_aware)
            (sample_manager ''standalone'' ''10.0.0.1'') once_patched) = Inr True
   \<and> \<not> list_ex (is_patch_step ''10.0.0.1'')
         (new_events once_patched
            (snd (install (sample_env marker_aware) (sample_store ''standalone'' ''10.0.0.1'')
                    (sample_manager ''standalone'' ''10.0.0.1'') once_patched)))
   \<and> marked ''10.0.0.1''
       (trace (snd (install (sample_env marker_aware) (sample_store ''standalone'' ''10.0.0.1'')
                      (sample_manager ''standalone'' ''10.0.0.1'') once_patched)))"
proof -
  let ?E = "sample_env marker_aware"
  let ?S = "sample_store ''standalone'' ''10.0.0.1''"
  let ?m = "sample_manager ''standalone'' ''10.0.0.1''"
  have h: "hostname (ipapp ?m) = ''10.0.0.1''"
    by (simp add: sample_manager_def)
  have first: "list_ex (is_patch_step ''10.0.0.1'')
                 (new_events fresh (snd (install_coverage_hook ?E ?m fresh)))"
    unfolding hook_first by (simp add: new_events_def fresh_def path_defs)
  have ok1: "fst (install_coverage_hook ?E ?m fresh) = Inr True"
    unfolding hook_first by simp
  have mem: "Call (RunCommand (hostname (ipapp ?m)) marker_check None) (Returned ok)
               \<in> set (new_events once_patched (snd (install_coverage_hook ?E ?m once_patched)))"
    unfolding hook_second h by (simp add: path_defs)
  have s: "success ok" by (simp add: ok_def)
  note t1 = install_coverage_hook_idempotent [of ?m fresh ?E ?S]
  note t2 = install_coverage_hook_idempotent [of ?m once_patched ?E ?S]
  have m1': "marked (hostname (ipapp ?m)) (trace once_patched)"
    using t1 [THEN conjunct2, THEN conjunct1, rule_format, OF ok1]
    unfolding once_patched_def .
  then have m1: "marked ''10.0.0.1'' (trace once_patched)"
    unfolding h .
  note again = t2 [THEN conjunct1, rule_format, OF conjI [OF mem s], THEN conjunct1]
  note p = marker_aware_persists [of "hostname (ipapp ?m)"]
  note m2 = t2 [THEN conjunct2, THEN conjunct2, rule_format, OF conjI [OF p m1'], unfolded h]
  from first m1 again m2 show ?thesis
    by (intro conjI) (elim conjE, assumption)+
qed

subsection \<open>The order of the phases\<close>





subsection \<open>The collection appliance\<close>




subsection \<open>The restart after collecting\<close>

lemma collect_reports_returns:
  assumes "fst (collect_reports E S self w) = Inr ()"
  shows "\<exists>r0 evs. snd (collect_reports E S self w) =
           w\<lparr>trace := trace w @ Call (RunCommand (hostname (ipapp self)) stop_command None)
                                   (Returned r0) # evs\<rparr>"
proof -
  let ?stop = "RunCommand (hostname (ipapp self)) stop_command None"
  have "\<exists>f. collect_reports E S self = bind (call E ?stop) f \<and> (\<forall>v. failfast (f v))"
    unfolding collect_reports_def
    by (rule exI, rule conjI, rule refl) (intro allI failfast_intros, simp_all add: failfast_intros)
  then obtain f where def: "collect_reports E S self = bind (call E ?stop) f"
    and ff: "\<And>v. failfast (f v)"
    by blast
  from assms obtain r0 where r0: "fst (call E ?stop w) = Inr r0"
    and run: "collect_reports E S self w = f r0 (snd (call E ?stop w))"
    unfolding def by (rule bind_Inr_elim)
  from r0 have "respond E (trace w) ?stop = Returned r0"
    by (simp add: call_run split: outcome.splits)
  then have w1: "snd (call E ?stop w) = w\<lparr>trace := trace w @ [Call ?stop (Returned r0)]\<rparr>"
    by (simp add: call_run)
  obtain evs where "snd (f r0 (snd (call E ?stop w))) =
      (snd (call E ?stop w))\<lparr>trace := trace (snd (call E ?stop w)) @ evs\<rparr>"
    using ff by (rule failfast_extends)
  with run w1 have "snd (collect_reports E S self w) =
      w\<lparr>trace := trace w @ Call ?stop (Returned r0) # evs\<rparr>"
    by simp
  then show ?thesis by blast
qed

text \<open>
  C9: when \<open>collect()\<close> returns, the last thing it did was a call of
  \<open>restart_evm_service\<close> on the appliance that returned, after the command stopping
  \<open>evmserverd\<close> had returned; and whenever the collection of the reports returns, the
  restart is the next and final step, whatever happened to the transfer.
\<close>

theorem collect_restarts_evm_service:
  "(fst (collect E S self w) = Inr () \<longrightarrow>
      (\<exists>pre r0 r1. new_events w (snd (collect E S self w)) =
           pre @ [Call (RestartEvmService (hostname (ipapp self))) (Returned r1)]
         \<and> Call (RunCommand (hostname (ipapp self)) stop_command None) (Returned r0) \<in> set pre))
   \<and> (\<forall>w1. collect_reports E S self (snd (print_message S self ''collecting reports'' w))
              = (Inr (), w1) \<longrightarrow>
         snd (collect E S self w) =
           w1\<lparr>trace := trace w1 @ [Call (RestartEvmService (hostname (ipapp self)))
                                     (respond E (trace w1)
                                        (RestartEvmService (hostname (ipapp self))))]\<rparr>)"
proof -
  let ?h = "hostname (ipapp self)"
  let ?w0 = "snd (print_message S self ''collecting reports'' w)"
  let ?restart = "RestartEvmService ?h"
  have w0: "?w0 = w\<lparr>trace := trace w @ [LogInfo (log self) ''collecting reports'',
                message_event S ''coverage: collecting reports'']\<rparr>"
    by (simp add: print_message_run)
  have always: "snd (collect E S self w) =
           w1\<lparr>trace := trace w1 @ [Call ?restart (respond E (trace w1) ?restart)]\<rparr>"
    if "collect_reports E S self ?w0 = (Inr (), w1)" for w1
    unfolding collect_unfold using that
    by (simp add: bind_def call_run return_def split: outcome.splits)
  have returns: "\<exists>pre r0 r1. new_events w (snd (collect E S self w)) = pre @ [Call ?restart (Returned r1)]
         \<and> Call (RunCommand ?h stop_command None) (Returned r0) \<in> set pre"
    if ok: "fst (collect E S self w) = Inr ()"
  proof -
    define w1 where "w1 = snd (collect_reports E S self ?w0)"
    from ok obtain u where u: "fst (collect_reports E S self ?w0) = Inr u"
      and run: "collect E S self w = bind (call E ?restart) (\<lambda>_. return ()) w1"
      unfolding collect_unfold w1_def by (rule bind_Inr_elim)
    from collect_reports_returns[of E S self ?w0] u obtain r0 evs where
      "w1 = ?w0\<lparr>trace := trace ?w0 @ Call (RunCommand ?h stop_command None) (Returned r0) # evs\<rparr>"
      unfolding w1_def by auto
    then have w1: "w1 = w\<lparr>trace := trace w @
         [LogInfo (log self) ''collecting reports'', message_event S ''coverage: collecting reports'',
          Call (RunCommand ?h stop_command None) (Returned r0)] @ evs\<rparr>"
      by (simp add: w0)
    from ok run obtain r1 where r1: "respond E (trace w1) ?restart = Returned r1"
      by (cases "respond E (trace w1) ?restart") (simp_all add: bind_def call_run return_def)
    have "snd (collect E S self w) = w1\<lparr>trace := trace w1 @ [Call ?restart (Returned r1)]\<rparr>"
      using run r1 by (simp add: bind_def call_run return_def)
    also have "\<dots> = w\<lparr>trace := trace w @
        (([LogInfo (log self) ''collecting reports'', message_event S ''coverage: collecting reports'',
          Call (RunCommand ?h stop_command None) (Returned r0)] @ evs)
         @ [Call ?restart (Returned r1)])\<rparr>"
      by (simp add: w1)
    finally have "new_events w (snd (collect E S self w)) =
        ([LogInfo (log self) ''collecting reports'', message_event S ''coverage: collecting reports'',
          Call (RunCommand ?h stop_command None) (Returned r0)] @ evs)
         @ [Call ?restart (Returned r1)]"
      by (simp only: new_events_append)
    moreover have "Call (RunCommand ?h stop_command None) (Returned r0) \<in> set
        ([LogInfo (log self) ''collecting reports'', message_event S ''coverage: collecting reports'',
          Call (RunCommand ?h stop_command None) (Returned r0)] @ evs)"
      by simp
    ultimately show ?thesis by blast
  qed
  show ?thesis using always returns by blast
qed

lemma collect_reports_standalone:
  "collect_reports (sample_env all_ok) (sample_store ''standalone'' ''10.0.0.1'')
     (sample_manager ''standalone'' ''10.0.0.1'')
     (snd (print_message (sample_store ''standalone'' ''10.0.0.1'')
             (sample_manager ''standalone'' ''10.0.0.1'') ''collecting reports'' fresh)) =
   (Inr (),
    \<lparr>trace = [LogInfo ''coverage'' ''collecting reports'',
              TerminalSep ''-'' ''coverage: collecting reports'',
              Call (RunCommand ''10.0.0.1'' ''systemctl stop evmserverd'' None) (Returned ok)],
     ui_coverage_conf = Map.empty\<rparr>)"
  by (simp add: collect_reports_def collection_appliance_def run_simps sample_defs path_defs
      all_ok_def)

theorem collect_restarts_evm_service_witness:
  "fst (collect (sample_env all_ok) (sample_store ''standalone'' ''10.0.0.1'')
          (sample_manager ''standalone'' ''10.0.0.1'') fresh) = Inr ()
   \<and> (\<exists>pre r0 r1.
         new_events fresh
           (snd (collect (sample_env all_ok) (sample_store ''standalone'' ''10.0.0.1'')
                   (sample_manager ''standalone'' ''10.0.0.1'') fresh))
         = pre @ [Call (RestartEvmService ''10.0.0.1'') (Returned r1)]
       \<and> Call (RunCommand ''10.0.0.1'' ''systemctl stop evmserverd'' None) (Returned r0)
           \<in> set pre)
   \<and> trace (snd (collect (sample_env all_ok) (sample_store ''standalone'' ''10.0.0.1'')
                   (sample_manager ''standalone'' ''10.0.0.1'') fresh))
     = [LogInfo ''coverage'' ''collecting reports'',
        TerminalSep ''-'' ''coverage: collecting reports'',
        Call (RunCommand ''10.0.0.1'' ''systemctl stop evmserverd'' None) (Returned ok),
        Call (RestartEvmService ''10.0.0.1'') (Returned ok)]"
proof -
  let ?E = "sample_env all_ok"
  let ?S = "sample_store ''standalone'' ''10.0.0.1''"
  let ?m = "sample_manager ''standalone'' ''10.0.0.1''"
  have ok: "fst (collect ?E ?S ?m fresh) = Inr ()"
    by (simp add: collect_run collect_reports_run collection_appliance_def run_simps
        sample_defs all_ok_def)
  have h: "hostname (ipapp ?m) = ''10.0.0.1''"
    by (simp add: sample_manager_def)
  note t = collect_restarts_evm_service [of ?E ?S ?m fresh]
  note t1 = t [THEN conjunct1, rule_format, OF ok, unfolded h stop_command_def]
  note t2 = t [THEN conjunct2, rule_format, OF collect_reports_standalone, unfolded h]
  have "trace (snd (collect ?E ?S ?m fresh))
     = [LogInfo ''coverage'' ''collecting reports'',
        TerminalSep ''-'' ''coverage: collecting reports'',
        Call (RunCommand ''10.0.0.1'' ''systemctl stop evmserverd'' None) (Returned ok),
        Call (RestartEvmService ''10.0.0.1'') (Returned ok)]"
    unfolding t2 by (simp add: sample_env_def all_ok_def)
  with ok t1 show ?thesis by (intro conjI)
qed

subsection \<open>Construction of the manager\<close>

text \<open>
  C10: constructing a \<open>CoverageManager\<close> for an appliance whose version is below 5.8
  raises \<open>ApplianceVersionException\<close>, so no coverage phase runs against it: on a
  process whose current appliance is such an appliance, none of the plugin's hooks
  has any effect on the world.
\<close>

theorem CoverageManager_init_below_5_8:
  assumes "version_lt E (app_version E (current_appliance S)) ''5.8''"
  shows "CoverageManager_init E S (current_appliance S) =
           Inl (ApplianceVersionException
                  ''Coverage statistics collection is only supported in appliances >= 5.8''
                  (app_version E (current_appliance S)))
         \<and> snd (pytest_sessionstart E S w) = w
         \<and> snd (pytest_collection_finish E S w) = w
         \<and> snd (pytest_sessionfinish E S w) = w"
proof -
  let ?x = "ApplianceVersionException
                  ''Coverage statistics collection is only supported in appliances >= 5.8''
                  (app_version E (current_appliance S))"
  have i: "CoverageManager_init E S (current_appliance S) = Inl ?x"
    using assms by (simp add: CoverageManager_init_def)
  hence m: "manager E S = Inl ?x" by (simp add: manager_def)
  show ?thesis
    using i by (simp add: pytest_sessionstart_def pytest_collection_finish_def
      pytest_sessionfinish_def the_manager_Inl[OF m] raise_def return_def bind_def)
qed

theorem CoverageManager_init_below_5_8_witness:
  "version_lt (sample_env all_ok)
     (app_version (sample_env all_ok) (current_appliance (sample_store ''standalone'' ''10.0.0.7'')))
     ''5.8''
   \<and> CoverageManager_init (sample_env all_ok) (sample_store ''standalone'' ''10.0.0.7'')
       \<lparr>hostname = ''10.0.0.7''\<rparr> =
       Inl (ApplianceVersionException
              ''Coverage statistics collection is only supported in appliances >= 5.8''
              ''5.7.0.1'')
   \<and> snd (pytest_sessionstart (sample_env all_ok) (sample_store ''standalone'' ''10.0.0.7'') fresh)
       = fresh
   \<and> snd (pytest_collection_finish (sample_env all_ok) (sample_store ''standalone'' ''10.0.0.7'')
            fresh) = fresh
   \<and> snd (pytest_sessionfinish (sample_env all_ok) (sample_store ''standalone'' ''10.0.0.7'') fresh)
       = fresh"
proof -
  have v: "version_lt (sample_env all_ok)
     (app_version (sample_env all_ok) (current_appliance (sample_store ''standalone'' ''10.0.0.7'')))
     ''5.8''"
    by (simp add: sample_env_def sample_store_def)
  have a: "current_appliance (sample_store ''standalone'' ''10.0.0.7'') = \<lparr>hostname = ''10.0.0.7''\<rparr>"
    by (simp add: sample_store_def)
  have b: "app_version (sample_env all_ok) \<lparr>hostname = ''10.0.0.7''\<rparr> = ''5.7.0.1''"
    by (simp add: sample_env_def)
  show ?thesis
    using v CoverageManager_init_below_5_8 [OF v, of fresh] by (simp add: a b)
qed

end
